theory Spec2Isabelle
  imports Main "HOL-Library.Word"
begin

section \<open>The connection list model of src/ui/model/connlistmodel.cpp\<close>

text \<open>
  \<open>ConnListModel\<close> shows the rows of the connection log whose identifiers lie in the
  stored window \<open>[m_connIdMin, m_connIdMax]\<close>. The embedding keeps the machine types of
  the source: \<open>qint64\<close> is a 64-bit word and \<open>int\<close> a 32-bit word, both read as two's
  complement (\<open>sint\<close>, \<open><s\<close>, \<open>\<le>s\<close>); arithmetic wraps around.
\<close>

subsection \<open>Machine integers\<close>

type_synonym qint64 = "64 word"
type_synonym cint = "32 word"

text \<open>The narrowing conversion \<open>qint64 \<rightarrow> int\<close> (\<open>int(x)\<close>, or the initialisation of a
  \<open>const int\<close> from a \<open>qint64\<close> expression): the low 32 bits.\<close>

definition toInt :: "qint64 \<Rightarrow> cint" where
  "toInt x = ucast x"

text \<open>The integral promotion \<open>int \<rightarrow> qint64\<close> of \<open>connIdMin() + row\<close>: sign extension.\<close>

definition toInt64 :: "cint \<Rightarrow> qint64" where
  "toInt64 i = scast i"

subsection \<open>Data\<close>

text \<open>\<open>ip_addr_t\<close> is a union of a 32-bit \<open>v4\<close> and a 128-bit \<open>v6\<close> member; the
  constructor records which member was assigned last.\<close>

datatype ip_addr_t = is_v4: V4 (v4: "32 word") | is_v6: V6 (v6: "128 word")

text \<open>A prepared statement positioned on a result row, seen through the column accessors
  that \<open>updateTableRow\<close> calls on it. The accessors belong to the SQLite wrapper; the model
  takes them as given.\<close>

record SqliteStmt =
  columnInt64 :: "nat \<Rightarrow> qint64"
  columnInt :: "nat \<Rightarrow> cint"
  columnBool :: "nat \<Rightarrow> bool"
  columnIsNull :: "nat \<Rightarrow> bool"
  columnUnixTime :: "nat \<Rightarrow> qint64"
  columnBlob :: "nat \<Rightarrow> 8 word list"
  columnText :: "nat \<Rightarrow> string"

text \<open>The row slot \<open>m_connRow\<close>. The header that declares the member widths is not part
  of the sources at hand; each member is kept at the width its accessor returns.\<close>

record ConnRow =
  connId :: qint64
  appId :: qint64
  connTime :: qint64
  pid :: cint
  reason :: cint
  blocked :: bool
  inherited :: bool
  inbound :: bool
  ipProto :: cint
  localPort :: cint
  remotePort :: cint
  isIPv6 :: bool
  localIp :: ip_addr_t
  remoteIp :: ip_addr_t
  appPath :: string

text \<open>Calls that leave the file: Qt's row bracketing (\<open>beginRemoveRows\<close> announces a
  removal, \<open>endRemoveRows\<close> emits \<open>rowsRemoved\<close>; likewise for insertion), the base
  class's \<open>invalidateRowCache\<close>, the model-reset notification and the host-name cache's
  \<open>clear\<close>. The model appends one event per call, in call order.\<close>

datatype event =
    BeginRemoveRows cint cint
  | EndRemoveRows
  | BeginInsertRows cint cint
  | EndInsertRows
  | InvalidateRowCache
  | ModelReset
  | HostInfoCacheClear

record ConnListModel =
  m_connIdMin :: qint64
  m_connIdMax :: qint64
  m_connRow :: ConnRow
  calls :: "event list"

text \<open>The events a step from \<open>s\<close> to \<open>s'\<close> appended.\<close>

definition emitted :: "ConnListModel \<Rightarrow> ConnListModel \<Rightarrow> event list" where
  "emitted s s' = drop (length (calls s)) (calls s')"

subsection \<open>Operations\<close>

text \<open>Modelled from the spec: \<open>invalidateRowCache()\<close> of the base class, which is not in
  the sources at hand. The specification has it drop the memoized row without changing the
  bounds; the model records the call and leaves the bounds alone.\<close>

definition invalidateRowCache :: "ConnListModel \<Rightarrow> ConnListModel" where
  "invalidateRowCache s = s\<lparr>calls := calls s @ [InvalidateRowCache]\<rparr>"

text \<open>Modelled from the spec: \<open>reset()\<close> of the base class, which is not in the sources at
  hand. The specification has a bound-changing call invalidate the row cache before it
  emits its notification, and names \<open>reset\<close> as the notification of a full reset.\<close>

definition reset :: "ConnListModel \<Rightarrow> ConnListModel" where
  "reset s = (invalidateRowCache s)\<lparr>calls := calls (invalidateRowCache s) @ [ModelReset]\<rparr>"

definition resetConnRows :: "qint64 \<Rightarrow> qint64 \<Rightarrow> ConnListModel \<Rightarrow> ConnListModel" where
  "resetConnRows idMin idMax s = reset (s\<lparr>m_connIdMin := idMin, m_connIdMax := idMax\<rparr>)"

definition beginRemoveRows :: "cint \<Rightarrow> cint \<Rightarrow> ConnListModel \<Rightarrow> ConnListModel" where
  "beginRemoveRows firstRow lastRow s = s\<lparr>calls := calls s @ [BeginRemoveRows firstRow lastRow]\<rparr>"

definition endRemoveRows :: "ConnListModel \<Rightarrow> ConnListModel" where
  "endRemoveRows s = s\<lparr>calls := calls s @ [EndRemoveRows]\<rparr>"

definition beginInsertRows :: "cint \<Rightarrow> cint \<Rightarrow> ConnListModel \<Rightarrow> ConnListModel" where
  "beginInsertRows firstRow lastRow s = s\<lparr>calls := calls s @ [BeginInsertRows firstRow lastRow]\<rparr>"

definition endInsertRows :: "ConnListModel \<Rightarrow> ConnListModel" where
  "endInsertRows s = s\<lparr>calls := calls s @ [EndInsertRows]\<rparr>"

definition removeConnRows :: "qint64 \<Rightarrow> cint \<Rightarrow> ConnListModel \<Rightarrow> ConnListModel" where
  "removeConnRows idMin count s =
     endRemoveRows (invalidateRowCache ((beginRemoveRows 0 (count - 1) s)\<lparr>m_connIdMin := idMin\<rparr>))"

definition insertConnRows :: "qint64 \<Rightarrow> cint \<Rightarrow> cint \<Rightarrow> ConnListModel \<Rightarrow> ConnListModel" where
  "insertConnRows idMax endRow count s =
     endInsertRows (invalidateRowCache
       ((beginInsertRows endRow (endRow + count - 1) s)\<lparr>m_connIdMax := idMax\<rparr>))"

text \<open>The three locals of \<open>updateConnRows\<close>.\<close>

definition removedCount :: "qint64 \<Rightarrow> qint64 \<Rightarrow> cint" where
  "removedCount oldIdMin idMin = toInt (idMin - oldIdMin)"

definition addedCount :: "qint64 \<Rightarrow> qint64 \<Rightarrow> cint" where
  "addedCount oldIdMax idMax = toInt (idMax - oldIdMax)"

definition endRow :: "qint64 \<Rightarrow> qint64 \<Rightarrow> cint" where
  "endRow oldIdMax idMin = toInt (oldIdMax - idMin + 1)"

definition isIdMinOut :: "qint64 \<Rightarrow> qint64 \<Rightarrow> qint64 \<Rightarrow> bool" where
  "isIdMinOut oldIdMin oldIdMax idMin = (idMin <s oldIdMin \<or> oldIdMax \<le>s idMin)"

definition isIdMaxOut :: "qint64 \<Rightarrow> qint64 \<Rightarrow> bool" where
  "isIdMaxOut oldIdMax idMax = (idMax <s oldIdMax \<or> oldIdMax = 0)"

definition updateConnRows ::
  "qint64 \<Rightarrow> qint64 \<Rightarrow> qint64 \<Rightarrow> qint64 \<Rightarrow> ConnListModel \<Rightarrow> ConnListModel" where
  "updateConnRows oldIdMin oldIdMax idMin idMax s =
     (if isIdMinOut oldIdMin oldIdMax idMin \<or> isIdMaxOut oldIdMax idMax
      then resetConnRows idMin idMax s
      else
        let s1 = (if 0 <s removedCount oldIdMin idMin
                  then removeConnRows idMin (removedCount oldIdMin idMin) s else s)
        in if 0 <s addedCount oldIdMax idMax
           then insertConnRows idMax (endRow oldIdMax idMin) (addedCount oldIdMax idMax) s1
           else s1)"

text \<open>\<open>updateConnIdRange\<close>; the range that \<open>getConnIdRange\<close> reads from the database is
  the argument \<open>(idMin, idMax)\<close>.\<close>

definition hostInfoCacheClear :: "ConnListModel \<Rightarrow> ConnListModel" where
  "hostInfoCacheClear s = s\<lparr>calls := calls s @ [HostInfoCacheClear]\<rparr>"

definition updateConnIdRange :: "qint64 \<times> qint64 \<Rightarrow> ConnListModel \<Rightarrow> ConnListModel" where
  "updateConnIdRange observed s =
     (let oldIdMin = m_connIdMin s; oldIdMax = m_connIdMax s;
          idMin = fst observed; idMax = snd observed
      in if idMin = oldIdMin \<and> idMax = oldIdMax then s
         else updateConnRows oldIdMin oldIdMax idMin idMax
                (if idMax = 0 then hostInfoCacheClear s else s))"

text \<open>\<open>doSqlCount\<close>, the row count; \<open>idSpan\<close> is its subexpression
  \<open>int(connIdMax() - connIdMin())\<close>.\<close>

definition idSpan :: "ConnListModel \<Rightarrow> cint" where
  "idSpan s = toInt (m_connIdMax s - m_connIdMin s)"

definition doSqlCount :: "ConnListModel \<Rightarrow> cint" where
  "doSqlCount s = (if m_connIdMax s \<le>s 0 then 0 else idSpan s + 1)"

text \<open>\<open>updateTableRow\<close>. The local \<open>connId\<close> is the identifier bound to the query; the
  query \<open>... WHERE t.conn_id = ?1\<close> is the lookup \<open>db connId\<close>, \<open>None\<close> when \<open>prepareRow\<close>
  finds no row. \<open>arrayViewToIp6\<close> (of \<open>NetUtil\<close>) reads a 16-byte view as a 128-bit
  address and is a parameter.\<close>

definition connIdOfRow :: "ConnListModel \<Rightarrow> cint \<Rightarrow> qint64" where
  "connIdOfRow s row = m_connIdMin s + toInt64 row"

definition decodeRow :: "(8 word list \<Rightarrow> 128 word) \<Rightarrow> SqliteStmt \<Rightarrow> ConnRow \<Rightarrow> ConnRow" where
  "decodeRow arrayViewToIp6 stmt r =
     (let r1 = r\<lparr>connId := columnInt64 stmt 0,
                  appId := columnInt64 stmt 1,
                  connTime := columnUnixTime stmt 2,
                  pid := columnInt stmt 3,
                  reason := columnInt stmt 4,
                  blocked := columnBool stmt 5,
                  inherited := columnBool stmt 6,
                  inbound := columnBool stmt 7,
                  ipProto := columnInt stmt 8,
                  localPort := columnInt stmt 9,
                  remotePort := columnInt stmt 10\<rparr>;
          r2 = r1\<lparr>isIPv6 := columnIsNull stmt 11\<rparr>;
          r3 = (if \<not> isIPv6 r2
                then r2\<lparr>localIp := V4 (columnInt stmt 11), remoteIp := V4 (columnInt stmt 12)\<rparr>
                else r2\<lparr>localIp := V6 (arrayViewToIp6 (columnBlob stmt 13)),
                        remoteIp := V6 (arrayViewToIp6 (columnBlob stmt 14))\<rparr>)
      in r3\<lparr>appPath := columnText stmt 15\<rparr>)"

definition updateTableRow ::
  "(8 word list \<Rightarrow> 128 word) \<Rightarrow> (qint64 \<Rightarrow> SqliteStmt option) \<Rightarrow> ConnListModel \<Rightarrow> cint
     \<Rightarrow> bool \<times> ConnListModel" where
  "updateTableRow arrayViewToIp6 db s row =
     (case db (connIdOfRow s row) of
        None \<Rightarrow> (False, s)
      | Some stmt \<Rightarrow> (True, s\<lparr>m_connRow := decodeRow arrayViewToIp6 stmt (m_connRow s)\<rparr>))"

subsection \<open>The read path\<close>

text \<open>\<open>connRowAt\<close> reads a row through \<open>updateRowCache\<close> of the base class and returns the
  row slot. \<open>updateRowCache\<close> is not in the sources at hand; it and the row cache it
  keeps are taken from the specification. The fetch it makes on a miss is the source's
  \<open>updateTableRow\<close>.\<close>

datatype error = OutOfRange

text \<open>Modelled from the spec: the row cache, \<open>Empty\<close> or \<open>Valid\<close> with the row index,
  the identifier and the value it was decoded to (\<open>None\<close> for the null row of an absent
  record).\<close>

datatype rowCache = Empty | Valid cint qint64 "ConnRow option"

text \<open>Modelled from the spec: \<open>identifierForRow(i)\<close>, defined only for
  \<open>0 \<le> i < rowCount()\<close>; outside, it fails with \<open>OutOfRange\<close>. Inside, the identifier is
  the one the source computes, \<open>connIdMin() + row\<close>.\<close>

definition identifierForRow :: "ConnListModel \<Rightarrow> cint \<Rightarrow> error + qint64" where
  "identifierForRow s i =
     (if 0 \<le>s i \<and> i <s doSqlCount s then Inr (connIdOfRow s i) else Inl OutOfRange)"

text \<open>Modelled from the spec: \<open>updateRowCache(row)\<close>, the specification's \<open>getRow\<close>. The
  cache holds the row when its entry has this row index and the identifier
  \<open>identifierForRow\<close> gives for it (an entry whose identifier no longer matches is a miss);
  then nothing changes. Otherwise the row is fetched under that identifier and the result,
  or the null row when the record is absent, is cached under row index and identifier.\<close>

definition updateRowCache ::
  "(8 word list \<Rightarrow> 128 word) \<Rightarrow> (qint64 \<Rightarrow> SqliteStmt option) \<Rightarrow> rowCache \<Rightarrow> ConnListModel
     \<Rightarrow> cint \<Rightarrow> error + rowCache \<times> ConnListModel" where
  "updateRowCache arrayViewToIp6 db c s row =
     (case identifierForRow s row of
        Inl e \<Rightarrow> Inl e
      | Inr ident \<Rightarrow>
          (if (case c of Empty \<Rightarrow> False | Valid j k v \<Rightarrow> j = row \<and> k = ident)
           then Inr (c, s)
           else (case updateTableRow arrayViewToIp6 db s row of
                   (ok, s') \<Rightarrow>
                     Inr (Valid row ident (if ok then Some (m_connRow s') else None), s'))))"

definition connRowAt ::
  "(8 word list \<Rightarrow> 128 word) \<Rightarrow> (qint64 \<Rightarrow> SqliteStmt option) \<Rightarrow> rowCache \<Rightarrow> ConnListModel
     \<Rightarrow> cint \<Rightarrow> error + ConnRow \<times> rowCache \<times> ConnListModel" where
  "connRowAt arrayViewToIp6 db c s row =
     (case updateRowCache arrayViewToIp6 db c s row of
        Inl e \<Rightarrow> Inl e
      | Inr (c', s') \<Rightarrow> Inr (m_connRow s', c', s'))"

subsection \<open>Reading an event list\<close>

text \<open>\<open>invalidatedBeforeNotify\<close> runs over a list of events and checks that each
  structural-change notification (\<open>EndRemoveRows\<close>, \<open>EndInsertRows\<close>, \<open>ModelReset\<close>) comes
  after a cache invalidation belonging to the same edit. The flag says whether the cache
  has been invalidated since the edit began; a \<open>Begin\<close> event or a notification starts a
  new edit.\<close>

fun invalidatedBeforeNotify :: "bool \<Rightarrow> event list \<Rightarrow> bool" where
  "invalidatedBeforeNotify done_inv [] = True"
| "invalidatedBeforeNotify done_inv (BeginRemoveRows a b # es) = invalidatedBeforeNotify False es"
| "invalidatedBeforeNotify done_inv (BeginInsertRows a b # es) = invalidatedBeforeNotify False es"
| "invalidatedBeforeNotify done_inv (InvalidateRowCache # es) = invalidatedBeforeNotify True es"
| "invalidatedBeforeNotify done_inv (HostInfoCacheClear # es) = invalidatedBeforeNotify done_inv es"
| "invalidatedBeforeNotify done_inv (EndRemoveRows # es) = (done_inv \<and> invalidatedBeforeNotify False es)"
| "invalidatedBeforeNotify done_inv (EndInsertRows # es) = (done_inv \<and> invalidatedBeforeNotify False es)"
| "invalidatedBeforeNotify done_inv (ModelReset # es) = (done_inv \<and> invalidatedBeforeNotify False es)"

subsection \<open>Concrete states and records\<close>

text \<open>A default-constructed row slot, a model that stores a given window and has made no
  call yet, and a small store: one IPv4 record under identifier 13 and one IPv6 record
  under identifier 14. \<open>ip6OfBytes\<close> is one reading of a byte view as a 128-bit number
  (most significant byte first), standing in for \<open>arrayViewToIp6\<close> in the examples.\<close>

definition emptyRow :: ConnRow where
  "emptyRow = \<lparr>connId = 0, appId = 0, connTime = 0, pid = 0, reason = 0, blocked = False,
     inherited = False, inbound = False, ipProto = 0, localPort = 0, remotePort = 0,
     isIPv6 = False, localIp = V4 0, remoteIp = V4 0, appPath = []\<rparr>"

definition modelAt :: "qint64 \<Rightarrow> qint64 \<Rightarrow> ConnListModel" where
  "modelAt idMin idMax =
     \<lparr>m_connIdMin = idMin, m_connIdMax = idMax, m_connRow = emptyRow, calls = []\<rparr>"

definition ip6OfBytes :: "8 word list \<Rightarrow> 128 word" where
  "ip6OfBytes bs = foldl (\<lambda>a b. a * 256 + ucast b) 0 bs"

definition stmt4 :: SqliteStmt where
  "stmt4 = \<lparr>columnInt64 = (\<lambda>c. if c = 0 then 13 else 7),
     columnInt = (\<lambda>c. if c = 11 then 167772161 else if c = 12 then 134744072
                       else if c = 8 then 6 else 443),
     columnBool = (\<lambda>c. c = 5),
     columnIsNull = (\<lambda>c. c = 13 \<or> c = 14),
     columnUnixTime = (\<lambda>c. 1700000000),
     columnBlob = (\<lambda>c. []),
     columnText = (\<lambda>c. ''C:/app.exe'')\<rparr>"

definition stmt6 :: SqliteStmt where
  "stmt6 = \<lparr>columnInt64 = (\<lambda>c. if c = 0 then 14 else 7),
     columnInt = (\<lambda>c. if c = 8 then 17 else if c = 11 \<or> c = 12 then 0 else 53),
     columnBool = (\<lambda>c. c = 7),
     columnIsNull = (\<lambda>c. c = 11 \<or> c = 12),
     columnUnixTime = (\<lambda>c. 1700000001),
     columnBlob = (\<lambda>c. if c = 13 then [0, 1] else if c = 14 then [1, 0] else []),
     columnText = (\<lambda>c. ''C:/app.exe'')\<rparr>"

definition storeEx :: "qint64 \<Rightarrow> SqliteStmt option" where
  "storeEx i = (if i = 13 then Some stmt4 else if i = 14 then Some stmt6 else None)"

section \<open>Properties\<close>

subsection \<open>Narrowing and promotion\<close>

lemma sint_toInt: "sint (toInt x) = signed_take_bit 31 (sint x)"
proof -
  have "sint (toInt x) = signed_take_bit 31 (take_bit 32 (uint x))"
    unfolding toInt_def by (simp add: sint_uint unsigned_ucast_eq)
  also have "\<dots> = signed_take_bit 31 (uint x)"
    by (simp add: signed_take_bit_take_bit)
  also have "\<dots> = signed_take_bit 31 (sint x)"
    by (simp add: sint_uint signed_take_bit_signed_take_bit)
  finally show ?thesis .
qed

lemma stb31_add_stb63:
  "signed_take_bit 31 (signed_take_bit 63 k + l) = signed_take_bit 31 (k + l :: int)"
proof -
  have "signed_take_bit 31 (signed_take_bit 63 k + l)
      = signed_take_bit 31 (signed_take_bit 31 (signed_take_bit 63 k) + signed_take_bit 31 l)"
    by (simp only: signed_take_bit_add)
  also have "\<dots> = signed_take_bit 31 (signed_take_bit 31 k + signed_take_bit 31 l)"
    by (simp add: signed_take_bit_signed_take_bit)
  also have "\<dots> = signed_take_bit 31 (k + l)"
    by (simp only: signed_take_bit_add)
  finally show ?thesis .
qed

lemma sint_toInt_diff: "sint (toInt (a - b)) = signed_take_bit 31 (sint a - sint b)"
  by (simp add: sint_toInt sint_word_diff signed_take_bit_signed_take_bit)

lemma sint_toInt_diff1:
  "sint (toInt (a - b + 1)) = signed_take_bit 31 (sint a - sint b + 1)"
  by (simp add: sint_toInt sint_word_add sint_word_diff signed_take_bit_signed_take_bit
      stb31_add_stb63)

lemma sint_toInt_plus1:
  "sint (toInt (a - b) + 1) = signed_take_bit 31 (sint a - sint b + 1)"
proof -
  have "sint (toInt (a - b) + 1)
      = signed_take_bit 31 (signed_take_bit 31 (sint a - sint b) + signed_take_bit 31 1)"
    by (simp add: sint_word_add sint_toInt_diff)
  then show ?thesis by (simp only: signed_take_bit_add)
qed

lemma sint_toInt64: "sint (toInt64 i) = sint i"
  unfolding toInt64_def by (simp add: sint_up_scast is_up)

lemma stb31_mod: "signed_take_bit 31 (d::int) mod 2 ^ 32 = d mod 2 ^ 32"
proof -
  have "take_bit 32 (signed_take_bit 31 d) = take_bit 32 d"
    by (simp add: take_bit_signed_take_bit)
  then show ?thesis by (simp only: take_bit_eq_mod)
qed

lemma uint_cint_mod: "uint (c :: cint) = sint c mod 2 ^ 32"
proof -
  have "0 \<le> uint c" and "uint c < 2 ^ 32"
    using uint_lt2p [of c] by simp_all
  then have "uint c = uint c mod 2 ^ 32" by simp
  moreover have "sint c mod 2 ^ 32 = uint c mod 2 ^ 32"
    using stb31_mod [of "uint c"] by (simp add: sint_uint)
  ultimately show ?thesis by simp
qed

subsection \<open>What each operation appends and stores\<close>

lemma calls_resetConnRows:
  "calls (resetConnRows idMin idMax s) = calls s @ [InvalidateRowCache, ModelReset]"
  by (simp add: resetConnRows_def reset_def invalidateRowCache_def)

lemma calls_removeConnRows:
  "calls (removeConnRows idMin n s)
     = calls s @ [BeginRemoveRows 0 (n - 1), InvalidateRowCache, EndRemoveRows]"
  by (simp add: removeConnRows_def endRemoveRows_def invalidateRowCache_def
      beginRemoveRows_def)

lemma calls_insertConnRows:
  "calls (insertConnRows idMax e n s)
     = calls s @ [BeginInsertRows e (e + n - 1), InvalidateRowCache, EndInsertRows]"
  by (simp add: insertConnRows_def endInsertRows_def invalidateRowCache_def
      beginInsertRows_def)

lemma fields_resetConnRows:
  "m_connIdMin (resetConnRows idMin idMax s) = idMin"
  "m_connIdMax (resetConnRows idMin idMax s) = idMax"
  "m_connRow (resetConnRows idMin idMax s) = m_connRow s"
  by (simp_all add: resetConnRows_def reset_def invalidateRowCache_def)

lemma fields_removeConnRows:
  "m_connIdMin (removeConnRows idMin n s) = idMin"
  "m_connIdMax (removeConnRows idMin n s) = m_connIdMax s"
  "m_connRow (removeConnRows idMin n s) = m_connRow s"
  by (simp_all add: removeConnRows_def endRemoveRows_def invalidateRowCache_def
      beginRemoveRows_def)

lemma fields_insertConnRows:
  "m_connIdMin (insertConnRows idMax e n s) = m_connIdMin s"
  "m_connIdMax (insertConnRows idMax e n s) = idMax"
  "m_connRow (insertConnRows idMax e n s) = m_connRow s"
  by (simp_all add: insertConnRows_def endInsertRows_def invalidateRowCache_def
      beginInsertRows_def)

lemmas calls_ops = calls_resetConnRows calls_removeConnRows calls_insertConnRows
lemmas fields_ops = fields_resetConnRows fields_removeConnRows fields_insertConnRows

lemma emitted_self: "emitted s s = []"
  by (simp add: emitted_def)

lemma emitted_updateConnRows:
  "emitted s (updateConnRows oldIdMin oldIdMax idMin idMax s) =
     (if isIdMinOut oldIdMin oldIdMax idMin \<or> isIdMaxOut oldIdMax idMax
      then [InvalidateRowCache, ModelReset]
      else (if 0 <s removedCount oldIdMin idMin
            then [BeginRemoveRows 0 (removedCount oldIdMin idMin - 1),
                  InvalidateRowCache, EndRemoveRows]
            else [])
         @ (if 0 <s addedCount oldIdMax idMax
            then [BeginInsertRows (endRow oldIdMax idMin)
                    (endRow oldIdMax idMin + addedCount oldIdMax idMax - 1),
                  InvalidateRowCache, EndInsertRows]
            else []))"
  by (simp add: updateConnRows_def Let_def emitted_def calls_ops)

lemma out_iff:
  "(isIdMinOut oldIdMin oldIdMax idMin \<or> isIdMaxOut oldIdMax idMax)
     = (sint idMin < sint oldIdMin \<or> sint oldIdMax \<le> sint idMin
        \<or> sint idMax < sint oldIdMax \<or> oldIdMax = 0)"
  by (simp add: isIdMinOut_def isIdMaxOut_def word_sless_alt word_sle_eq)

subsection \<open>Range-change classification\<close>

text \<open>
  C1. \<open>updateConnRows\<close> takes the reset path exactly when the new minimum is below the old
  minimum, or not below the old maximum, or the new maximum is below the old maximum, or
  the old maximum is 0 (all comparisons signed). On that path the stored window becomes
  the new one and the step appends the cache invalidation and the reset notification,
  nothing else; off that path no reset notification is appended. Windows (5,12) then
  (20,25): a reset to (20,25).
\<close>

theorem updateConnRows_reset_iff:
  "((ModelReset \<in> set (emitted s (updateConnRows oldIdMin oldIdMax idMin idMax s)))
      = (sint idMin < sint oldIdMin \<or> sint oldIdMax \<le> sint idMin
         \<or> sint idMax < sint oldIdMax \<or> oldIdMax = 0))
   \<and> (ModelReset \<in> set (emitted s (updateConnRows oldIdMin oldIdMax idMin idMax s)) \<longrightarrow>
        updateConnRows oldIdMin oldIdMax idMin idMax s = resetConnRows idMin idMax s
        \<and> emitted s (updateConnRows oldIdMin oldIdMax idMin idMax s)
            = [InvalidateRowCache, ModelReset]
        \<and> m_connIdMin (updateConnRows oldIdMin oldIdMax idMin idMax s) = idMin
        \<and> m_connIdMax (updateConnRows oldIdMin oldIdMax idMin idMax s) = idMax)
   \<and> emitted (modelAt 5 12) (updateConnRows 5 12 20 25 (modelAt 5 12))
        = [InvalidateRowCache, ModelReset]
   \<and> m_connIdMin (updateConnRows 5 12 20 25 (modelAt 5 12)) = 20
   \<and> m_connIdMax (updateConnRows 5 12 20 25 (modelAt 5 12)) = 25"
proof -
  let ?s' = "updateConnRows oldIdMin oldIdMax idMin idMax s"
  let ?out = "isIdMinOut oldIdMin oldIdMax idMin \<or> isIdMaxOut oldIdMax idMax"
  have iff: "(ModelReset \<in> set (emitted s ?s')) = ?out"
    by (simp add: emitted_updateConnRows)
  have path: "?out \<Longrightarrow> ?s' = resetConnRows idMin idMax s"
    by (simp add: updateConnRows_def)
  have ev: "?out \<Longrightarrow> emitted s ?s' = [InvalidateRowCache, ModelReset]"
    by (simp add: emitted_updateConnRows)
  have d: "isIdMinOut 5 12 20"
    by (simp add: isIdMinOut_def word_sle_eq)
  have "emitted (modelAt 5 12) (updateConnRows 5 12 20 25 (modelAt 5 12))
          = [InvalidateRowCache, ModelReset]"
    using d by (simp add: emitted_updateConnRows)
  moreover have "updateConnRows 5 12 20 25 (modelAt 5 12) = resetConnRows 20 25 (modelAt 5 12)"
    using d by (simp add: updateConnRows_def)
  ultimately show ?thesis
    using iff path ev by (simp add: out_iff fields_resetConnRows)
qed

theorem updateConnRows_reset_iff_witness:
  "ModelReset \<in> set (emitted (modelAt 0 0) (updateConnRows 0 0 1 1 (modelAt 0 0)))
   \<and> m_connIdMin (updateConnRows 0 0 1 1 (modelAt 0 0)) = 1
   \<and> m_connIdMax (updateConnRows 0 0 1 1 (modelAt 0 0)) = 1
   \<and> ModelReset \<notin> set (emitted (modelAt 5 10) (updateConnRows 5 10 5 12 (modelAt 5 10)))"
  using updateConnRows_reset_iff [of "modelAt 0 0" 0 0 1 1]
    updateConnRows_reset_iff [of "modelAt 5 10" 5 10 5 12]
  by simp

subsection \<open>Cache invalidation and notifications\<close>

lemma calls_updateConnRows:
  "calls (updateConnRows a b c d t) = calls t @ emitted s (updateConnRows a b c d s)"
  unfolding emitted_updateConnRows
  by (simp add: updateConnRows_def Let_def calls_ops)

lemma calls_updateConnIdRange:
  "calls (updateConnIdRange (idMin, idMax) s) = calls s @
     (if idMin = m_connIdMin s \<and> idMax = m_connIdMax s then []
      else (if idMax = 0 then [HostInfoCacheClear] else [])
           @ emitted s (updateConnRows (m_connIdMin s) (m_connIdMax s) idMin idMax s))"
  by (simp add: updateConnIdRange_def Let_def hostInfoCacheClear_def
      calls_updateConnRows [where s = s])

lemma emitted_updateConnIdRange:
  "emitted s (updateConnIdRange (idMin, idMax) s) =
     (if idMin = m_connIdMin s \<and> idMax = m_connIdMax s then []
      else (if idMax = 0 then [HostInfoCacheClear] else [])
           @ emitted s (updateConnRows (m_connIdMin s) (m_connIdMax s) idMin idMax s))"
  by (simp add: emitted_def calls_updateConnIdRange)

lemma fields_hostInfoCacheClear:
  "m_connIdMin (hostInfoCacheClear s) = m_connIdMin s"
  "m_connIdMax (hostInfoCacheClear s) = m_connIdMax s"
  "m_connRow (hostInfoCacheClear s) = m_connRow s"
  by (simp_all add: hostInfoCacheClear_def)

lemma updateConnRows_order: "invalidatedBeforeNotify b0 (emitted s (updateConnRows a b c d s))"
  by (simp add: emitted_updateConnRows)

lemma updateConnRows_no_clear: "HostInfoCacheClear \<notin> set (emitted s (updateConnRows a b c d s))"
  by (simp add: emitted_updateConnRows)

lemma updateConnRows_invalidates_iff:
  "(InvalidateRowCache \<in> set (emitted t (updateConnRows a b c d t)))
     = (isIdMinOut a b c \<or> isIdMaxOut b d \<or> 0 <s removedCount a c \<or> 0 <s addedCount b d)"
  by (simp add: emitted_updateConnRows)

lemma updateConnRows_idle:
  "\<not> (isIdMinOut a b c \<or> isIdMaxOut b d \<or> 0 <s removedCount a c \<or> 0 <s addedCount b d)
     \<Longrightarrow> updateConnRows a b c d t = t"
  by (simp add: updateConnRows_def Let_def)

lemma updateConnRows_bounds_changed:
  assumes "m_connIdMin (updateConnRows a b c d t) \<noteq> m_connIdMin t
           \<or> m_connIdMax (updateConnRows a b c d t) \<noteq> m_connIdMax t"
  shows "InvalidateRowCache \<in> set (emitted t (updateConnRows a b c d t))"
proof (rule ccontr)
  assume "InvalidateRowCache \<notin> set (emitted t (updateConnRows a b c d t))"
  then have "\<not> (isIdMinOut a b c \<or> isIdMaxOut b d
                \<or> 0 <s removedCount a c \<or> 0 <s addedCount b d)"
    using updateConnRows_invalidates_iff [of t a b c d] by blast
  then have "updateConnRows a b c d t = t"
    by (rule updateConnRows_idle)
  with assms show False by simp
qed

text \<open>
  C7. Each bound-changing operation appends a cache invalidation whatever its arguments:
  \<open>removeConnRows\<close> and \<open>insertConnRows\<close> call \<open>invalidateRowCache\<close> between Qt's
  \<open>begin\<close> call (which announces the change) and \<open>end\<close> call (which emits \<open>rowsRemoved\<close>
  or \<open>rowsInserted\<close>); \<open>resetConnRows\<close> invalidates before the reset notification.
  Over a whole \<open>updateConnIdRange\<close>, every notification follows the invalidation of its
  own edit, and a step that changes a stored bound invalidates the cache.
\<close>

theorem bound_changes_invalidate_first:
  "emitted s (removeConnRows idMin n s)
      = [BeginRemoveRows 0 (n - 1), InvalidateRowCache, EndRemoveRows]
   \<and> emitted s (insertConnRows idMax e n s)
      = [BeginInsertRows e (e + n - 1), InvalidateRowCache, EndInsertRows]
   \<and> emitted s (resetConnRows idMin idMax s) = [InvalidateRowCache, ModelReset]
   \<and> invalidatedBeforeNotify False (emitted s (updateConnIdRange observed s))
   \<and> (m_connIdMin (updateConnIdRange observed s) \<noteq> m_connIdMin s
        \<or> m_connIdMax (updateConnIdRange observed s) \<noteq> m_connIdMax s
      \<longrightarrow> InvalidateRowCache \<in> set (emitted s (updateConnIdRange observed s)))"
proof -
  obtain idMin' idMax' where obs: "observed = (idMin', idMax')" by (cases observed)
  have ord: "invalidatedBeforeNotify False (emitted s (updateConnIdRange observed s))"
    by (simp add: obs emitted_updateConnIdRange updateConnRows_order)
  have chg: "m_connIdMin (updateConnIdRange observed s) \<noteq> m_connIdMin s
        \<or> m_connIdMax (updateConnIdRange observed s) \<noteq> m_connIdMax s
      \<Longrightarrow> InvalidateRowCache \<in> set (emitted s (updateConnIdRange observed s))"
  proof -
    assume a: "m_connIdMin (updateConnIdRange observed s) \<noteq> m_connIdMin s
        \<or> m_connIdMax (updateConnIdRange observed s) \<noteq> m_connIdMax s"
    let ?t = "if idMax' = 0 then hostInfoCacheClear s else s"
    have ne: "\<not> (idMin' = m_connIdMin s \<and> idMax' = m_connIdMax s)"
    proof
      assume "idMin' = m_connIdMin s \<and> idMax' = m_connIdMax s"
      then have "updateConnIdRange observed s = s"
        by (simp add: obs updateConnIdRange_def)
      with a show False by simp
    qed
    then have eq: "updateConnIdRange observed s
        = updateConnRows (m_connIdMin s) (m_connIdMax s) idMin' idMax' ?t"
      by (auto simp add: obs updateConnIdRange_def Let_def)
    have "m_connIdMin ?t = m_connIdMin s" "m_connIdMax ?t = m_connIdMax s"
      by (simp_all add: fields_hostInfoCacheClear)
    with a eq have "InvalidateRowCache
        \<in> set (emitted ?t (updateConnRows (m_connIdMin s) (m_connIdMax s) idMin' idMax' ?t))"
      using updateConnRows_bounds_changed [of "m_connIdMin s" "m_connIdMax s" idMin' idMax' ?t]
      by metis
    then have "InvalidateRowCache
        \<in> set (emitted s (updateConnRows (m_connIdMin s) (m_connIdMax s) idMin' idMax' s))"
      by (simp add: emitted_updateConnRows)
    then show ?thesis
      using ne by (simp add: obs emitted_updateConnIdRange)
  qed
  show ?thesis
    using ord chg by (simp add: emitted_def calls_ops)
qed

theorem bound_changes_invalidate_first_witness:
  "m_connIdMin (updateConnIdRange (8, 14) (modelAt 5 12)) \<noteq> m_connIdMin (modelAt 5 12)
   \<and> InvalidateRowCache \<in> set (emitted (modelAt 5 12) (updateConnIdRange (8, 14) (modelAt 5 12)))
   \<and> invalidatedBeforeNotify False (emitted (modelAt 5 12) (updateConnIdRange (8, 14) (modelAt 5 12)))"
proof -
  have "m_connIdMin (updateConnIdRange (8, 14) (modelAt 5 12)) = 8"
    by (simp add: updateConnIdRange_def updateConnRows_def modelAt_def Let_def isIdMinOut_def
        isIdMaxOut_def word_sless_alt word_sle_eq removedCount_def addedCount_def toInt_def
        fields_ops)
  then show ?thesis
    using bound_changes_invalidate_first [where s = "modelAt 5 12" and observed = "(8, 14)"]
    by (simp add: modelAt_def)
qed

subsection \<open>The host-name cache\<close>

text \<open>
  C9. When \<open>updateConnIdRange\<close> observes a range that differs from the stored one and whose
  maximum is 0, it clears the host-name cache first and runs the row update on the state
  after the clear: the events are the clear followed by exactly the events of the row
  update, none of which is another clear. When the observed maximum is not 0, or the range
  is the stored one, no clear is appended; for the stored range the model is unchanged.
\<close>

theorem updateConnIdRange_host_cache:
  "((idMin, idMax) \<noteq> (m_connIdMin s, m_connIdMax s) \<and> idMax = 0 \<longrightarrow>
      updateConnIdRange (idMin, idMax) s
        = updateConnRows (m_connIdMin s) (m_connIdMax s) idMin idMax (hostInfoCacheClear s)
      \<and> emitted s (updateConnIdRange (idMin, idMax) s)
        = HostInfoCacheClear
            # emitted s (updateConnRows (m_connIdMin s) (m_connIdMax s) idMin idMax s)
      \<and> HostInfoCacheClear
           \<notin> set (emitted s (updateConnRows (m_connIdMin s) (m_connIdMax s) idMin idMax s)))
   \<and> (idMax \<noteq> 0 \<or> (idMin, idMax) = (m_connIdMin s, m_connIdMax s) \<longrightarrow>
        HostInfoCacheClear \<notin> set (emitted s (updateConnIdRange (idMin, idMax) s)))
   \<and> ((idMin, idMax) = (m_connIdMin s, m_connIdMax s) \<longrightarrow>
        updateConnIdRange (idMin, idMax) s = s)"
proof -
  let ?s' = "updateConnIdRange (idMin, idMax) s"
  let ?rows = "emitted s (updateConnRows (m_connIdMin s) (m_connIdMax s) idMin idMax s)"
  have same: "(idMin, idMax) = (m_connIdMin s, m_connIdMax s) \<Longrightarrow> ?s' = s"
    by (simp add: updateConnIdRange_def)
  have run: "(idMin, idMax) \<noteq> (m_connIdMin s, m_connIdMax s) \<Longrightarrow> idMax = 0 \<Longrightarrow>
      ?s' = updateConnRows (m_connIdMin s) (m_connIdMax s) idMin idMax (hostInfoCacheClear s)"
    by (auto simp add: updateConnIdRange_def Let_def)
  have ev: "(idMin, idMax) \<noteq> (m_connIdMin s, m_connIdMax s) \<Longrightarrow> idMax = 0 \<Longrightarrow>
      emitted s ?s' = HostInfoCacheClear # ?rows"
    by (auto simp add: emitted_updateConnIdRange)
  have rows: "HostInfoCacheClear \<notin> set ?rows"
    by (rule updateConnRows_no_clear)
  have untouched: "idMax \<noteq> 0 \<or> (idMin, idMax) = (m_connIdMin s, m_connIdMax s) \<Longrightarrow>
      HostInfoCacheClear \<notin> set (emitted s ?s')"
    using rows by (auto simp add: emitted_updateConnIdRange)
  show ?thesis
    using same run ev rows untouched by blast
qed

theorem updateConnIdRange_host_cache_witness:
  "emitted (modelAt 5 12) (updateConnIdRange (0, 0) (modelAt 5 12))
     = [HostInfoCacheClear, InvalidateRowCache, ModelReset]
   \<and> HostInfoCacheClear \<notin> set (emitted (modelAt 5 12) (updateConnIdRange (5, 14) (modelAt 5 12)))
   \<and> updateConnIdRange (5, 12) (modelAt 5 12) = modelAt 5 12"
proof -
  have m: "m_connIdMin (modelAt 5 12) = 5" "m_connIdMax (modelAt 5 12) = 12"
    by (simp_all add: modelAt_def)
  have r: "emitted (modelAt 5 12) (updateConnRows 5 12 0 0 (modelAt 5 12))
      = [InvalidateRowCache, ModelReset]"
    by (simp add: emitted_updateConnRows isIdMinOut_def word_sless_alt)
  have h0: "(0, 0) \<noteq> (m_connIdMin (modelAt 5 12), m_connIdMax (modelAt 5 12)) \<and> (0::qint64) = 0"
    and h1: "(14::qint64) \<noteq> 0 \<or> (5, 14) = (m_connIdMin (modelAt 5 12), m_connIdMax (modelAt 5 12))"
    and h2: "(5, 12) = (m_connIdMin (modelAt 5 12), m_connIdMax (modelAt 5 12))"
    by (simp_all add: m)
  have "emitted (modelAt 5 12) (updateConnIdRange (0, 0) (modelAt 5 12))
      = HostInfoCacheClear # emitted (modelAt 5 12)
          (updateConnRows (m_connIdMin (modelAt 5 12)) (m_connIdMax (modelAt 5 12)) 0 0
             (modelAt 5 12))"
    using updateConnIdRange_host_cache [of 0 0 "modelAt 5 12"] h0 by blast
  then have a: "emitted (modelAt 5 12) (updateConnIdRange (0, 0) (modelAt 5 12))
      = [HostInfoCacheClear, InvalidateRowCache, ModelReset]"
    by (simp add: m r)
  have b: "HostInfoCacheClear
      \<notin> set (emitted (modelAt 5 12) (updateConnIdRange (5, 14) (modelAt 5 12)))"
    using updateConnIdRange_host_cache [of 5 14 "modelAt 5 12"] h1 by blast
  have c: "updateConnIdRange (5, 12) (modelAt 5 12) = modelAt 5 12"
    using updateConnIdRange_host_cache [of 5 12 "modelAt 5 12"] h2 by blast
  show ?thesis
    using a b c by simp
qed

subsection \<open>Trim and grow in one step\<close>

text \<open>
  C4, as the code has it. Let a range change not reset and have both differences
  positive, \<open>newIdMin - oldIdMin > 0\<close> and \<open>newIdMax - oldIdMax > 0\<close>, and let each count
  still be positive as the 32-bit int the code stores it in, as it is whenever the
  difference is below \<open>2^31\<close>. Then \<open>updateConnRows\<close> is \<open>insertConnRows\<close> applied to the
  result of \<open>removeConnRows\<close>: the trim comes first. The insertion row is
  \<open>oldIdMax - idMin + 1\<close> with the new minimum, narrowed to 32 bits, and is that number
  itself when it is below \<open>2^31\<close>; a count whose difference is below \<open>2^31\<close> is that
  difference.
\<close>

theorem trim_before_grow:
  assumes noreset: "\<not> (sint idMin < sint oldIdMin \<or> sint oldIdMax \<le> sint idMin
              \<or> sint idMax < sint oldIdMax \<or> oldIdMax = 0)"
    and removed: "0 < sint idMin - sint oldIdMin"
    and added: "0 < sint idMax - sint oldIdMax"
    and removed32: "sint idMin - sint oldIdMin < 2 ^ 31 \<or> 0 < sint (removedCount oldIdMin idMin)"
    and added32: "sint idMax - sint oldIdMax < 2 ^ 31 \<or> 0 < sint (addedCount oldIdMax idMax)"
  shows "updateConnRows oldIdMin oldIdMax idMin idMax s
           = insertConnRows idMax (endRow oldIdMax idMin) (addedCount oldIdMax idMax)
               (removeConnRows idMin (removedCount oldIdMin idMin) s)
         \<and> emitted s (updateConnRows oldIdMin oldIdMax idMin idMax s)
           = [BeginRemoveRows 0 (removedCount oldIdMin idMin - 1),
              InvalidateRowCache, EndRemoveRows,
              BeginInsertRows (endRow oldIdMax idMin)
                (endRow oldIdMax idMin + addedCount oldIdMax idMax - 1),
              InvalidateRowCache, EndInsertRows]
         \<and> endRow oldIdMax idMin = toInt (oldIdMax - idMin + 1)
         \<and> sint (endRow oldIdMax idMin)
           = signed_take_bit 31 (sint oldIdMax - sint idMin + 1)
         \<and> (sint oldIdMax - sint idMin + 1 < 2 ^ 31 \<longrightarrow>
              sint (endRow oldIdMax idMin) = sint oldIdMax - sint idMin + 1)
         \<and> (sint idMin - sint oldIdMin < 2 ^ 31 \<longrightarrow>
              sint (removedCount oldIdMin idMin) = sint idMin - sint oldIdMin)
         \<and> (sint idMax - sint oldIdMax < 2 ^ 31 \<longrightarrow>
              sint (addedCount oldIdMax idMax) = sint idMax - sint oldIdMax)"
proof -
  have out: "\<not> (isIdMinOut oldIdMin oldIdMax idMin \<or> isIdMaxOut oldIdMax idMax)"
    using noreset by (simp add: out_iff)
  have rce: "sint (removedCount oldIdMin idMin) = sint idMin - sint oldIdMin"
    if "sint idMin - sint oldIdMin < 2 ^ 31"
  proof -
    have "- (2 ^ 31) \<le> sint idMin - sint oldIdMin" using removed by simp
    with that show ?thesis
      by (simp only: removedCount_def sint_toInt_diff signed_take_bit_int_eq_self)
  qed
  have ace: "sint (addedCount oldIdMax idMax) = sint idMax - sint oldIdMax"
    if "sint idMax - sint oldIdMax < 2 ^ 31"
  proof -
    have "- (2 ^ 31) \<le> sint idMax - sint oldIdMax" using added by simp
    with that show ?thesis
      by (simp only: addedCount_def sint_toInt_diff signed_take_bit_int_eq_self)
  qed
  have "0 < sint (removedCount oldIdMin idMin)"
    using removed32 removed rce by auto
  then have rc: "0 <s removedCount oldIdMin idMin"
    by (simp add: word_sless_alt)
  have "0 < sint (addedCount oldIdMax idMax)"
    using added32 added ace by auto
  then have ac: "0 <s addedCount oldIdMax idMax"
    by (simp add: word_sless_alt)
  have step: "updateConnRows oldIdMin oldIdMax idMin idMax s
           = insertConnRows idMax (endRow oldIdMax idMin) (addedCount oldIdMax idMax)
               (removeConnRows idMin (removedCount oldIdMin idMin) s)"
    using out rc ac by (simp add: updateConnRows_def Let_def)
  have ev: "emitted s (updateConnRows oldIdMin oldIdMax idMin idMax s)
           = [BeginRemoveRows 0 (removedCount oldIdMin idMin - 1),
              InvalidateRowCache, EndRemoveRows,
              BeginInsertRows (endRow oldIdMax idMin)
                (endRow oldIdMax idMin + addedCount oldIdMax idMax - 1),
              InvalidateRowCache, EndInsertRows]"
    using out rc ac by (simp add: emitted_updateConnRows)
  have pos: "sint (endRow oldIdMax idMin) = signed_take_bit 31 (sint oldIdMax - sint idMin + 1)"
    by (simp add: endRow_def sint_toInt_diff1)
  have exact: "sint (endRow oldIdMax idMin) = sint oldIdMax - sint idMin + 1"
    if "sint oldIdMax - sint idMin + 1 < 2 ^ 31"
  proof -
    have "- (2 ^ 31) \<le> sint oldIdMax - sint idMin + 1"
      using noreset by simp
    with that show ?thesis
      unfolding pos by (intro signed_take_bit_int_eq_self) simp_all
  qed
  have er: "endRow oldIdMax idMin = toInt (oldIdMax - idMin + 1)"
    by (simp add: endRow_def)
  show ?thesis
    using step ev er pos exact rce ace by blast
qed

theorem trim_before_grow_witness:
  "updateConnRows 5 12 8 14 (modelAt 5 12)
     = insertConnRows 14 5 2 (removeConnRows 8 3 (modelAt 5 12))
   \<and> emitted (modelAt 5 12) (updateConnRows 5 12 8 14 (modelAt 5 12))
     = [BeginRemoveRows 0 2, InvalidateRowCache, EndRemoveRows,
        BeginInsertRows 5 6, InvalidateRowCache, EndInsertRows]"
proof -
  have c: "removedCount 5 8 = 3" "addedCount 12 14 = 2" "endRow 12 8 = 5"
    by (simp_all add: removedCount_def addedCount_def endRow_def toInt_def)
  have h: "\<not> (sint (8::qint64) < sint (5::qint64) \<or> sint (12::qint64) \<le> sint (8::qint64)
              \<or> sint (14::qint64) < sint (12::qint64) \<or> (12::qint64) = 0)"
    "0 < sint (8::qint64) - sint (5::qint64)"
    "0 < sint (14::qint64) - sint (12::qint64)"
    "sint (8::qint64) - sint (5::qint64) < 2 ^ 31 \<or> 0 < sint (removedCount 5 8)"
    "sint (14::qint64) - sint (12::qint64) < 2 ^ 31 \<or> 0 < sint (addedCount 12 14)"
    by simp_all
  note t = trim_before_grow [OF h, of "modelAt 5 12", unfolded c]
  have e1: "updateConnRows 5 12 8 14 (modelAt 5 12)
     = insertConnRows 14 5 2 (removeConnRows 8 3 (modelAt 5 12))"
    using t by blast
  have "emitted (modelAt 5 12) (updateConnRows 5 12 8 14 (modelAt 5 12))
     = [BeginRemoveRows 0 (3 - 1), InvalidateRowCache, EndRemoveRows,
        BeginInsertRows 5 (5 + 2 - 1), InvalidateRowCache, EndInsertRows]"
    using t by blast
  then have e2: "emitted (modelAt 5 12) (updateConnRows 5 12 8 14 (modelAt 5 12))
     = [BeginRemoveRows 0 2, InvalidateRowCache, EndRemoveRows,
        BeginInsertRows 5 6, InvalidateRowCache, EndInsertRows]"
    by simp
  show ?thesis using e1 e2 by blast
qed

text \<open>The condition on the stored counts is needed. From \<open>(0, 2^32+10)\<close> to
  \<open>(2^32, 2^32+11)\<close> there is no reset and both differences are positive, but
  \<open>removedCount\<close> is \<open>int(2^32) = 0\<close>: only one row is inserted, at row 11, nothing is
  removed, and the stored minimum stays 0.\<close>

theorem trim_before_grow_counterexample:
  "\<not> (sint (4294967296::qint64) < sint (0::qint64)
        \<or> sint (4294967306::qint64) \<le> sint (4294967296::qint64)
        \<or> sint (4294967307::qint64) < sint (4294967306::qint64)
        \<or> (4294967306::qint64) = 0)
   \<and> 0 < sint (4294967296::qint64) - sint (0::qint64)
   \<and> 0 < sint (4294967307::qint64) - sint (4294967306::qint64)
   \<and> updateConnRows 0 4294967306 4294967296 4294967307 (modelAt 0 4294967306)
       = insertConnRows 4294967307 11 1 (modelAt 0 4294967306)
   \<and> emitted (modelAt 0 4294967306)
        (updateConnRows 0 4294967306 4294967296 4294967307 (modelAt 0 4294967306))
       = [BeginInsertRows 11 11, InvalidateRowCache, EndInsertRows]
   \<and> m_connIdMin (updateConnRows 0 4294967306 4294967296 4294967307 (modelAt 0 4294967306))
       = 0"
proof -
  have b: "\<not> (isIdMinOut 0 4294967306 4294967296 \<or> isIdMaxOut 4294967306 4294967307)"
    by (simp add: isIdMinOut_def isIdMaxOut_def word_sle_eq word_sless_alt)
  have c: "removedCount 0 4294967296 = 0" "addedCount 4294967306 4294967307 = 1"
    "endRow 4294967306 4294967296 = 11"
    by (simp_all add: removedCount_def addedCount_def endRow_def toInt_def)
  have p: "(0::cint) <s 1" "\<not> (0::cint) <s 0"
    by (simp_all add: word_sless_alt)
  have u: "updateConnRows 0 4294967306 4294967296 4294967307 (modelAt 0 4294967306)
       = insertConnRows 4294967307 11 1 (modelAt 0 4294967306)"
    using b p by (simp add: updateConnRows_def c Let_def)
  have ev: "emitted (modelAt 0 4294967306)
        (updateConnRows 0 4294967306 4294967296 4294967307 (modelAt 0 4294967306))
       = [BeginInsertRows 11 11, InvalidateRowCache, EndInsertRows]"
    using b p by (simp add: emitted_updateConnRows c)
  have mn: "m_connIdMin (insertConnRows 4294967307 11 1 (modelAt 0 4294967306)) = 0"
    by (simp add: fields_insertConnRows modelAt_def)
  show ?thesis
    using ev mn by (simp add: u)
qed

subsection \<open>Counts are 32-bit\<close>

text \<open>
  C10. \<open>removedCount\<close>, \<open>addedCount\<close> and the span \<open>int(connIdMax() - connIdMin())\<close> of the
  row count are 64-bit differences narrowed to 32-bit signed ints. Each is congruent to the
  exact integer difference modulo \<open>2^32\<close>, and equals it when the difference lies in
  \<open>[-2^31, 2^31)\<close>; the row count of a window with positive maximum is the span plus one.
\<close>

theorem counts_narrowed:
  "uint (removedCount oldIdMin idMin) = (sint idMin - sint oldIdMin) mod 2 ^ 32
   \<and> uint (addedCount oldIdMax idMax) = (sint idMax - sint oldIdMax) mod 2 ^ 32
   \<and> uint (idSpan s) = (sint (m_connIdMax s) - sint (m_connIdMin s)) mod 2 ^ 32
   \<and> (- (2 ^ 31) \<le> sint idMin - sint oldIdMin \<and> sint idMin - sint oldIdMin < 2 ^ 31 \<longrightarrow>
        sint (removedCount oldIdMin idMin) = sint idMin - sint oldIdMin)
   \<and> (- (2 ^ 31) \<le> sint idMax - sint oldIdMax \<and> sint idMax - sint oldIdMax < 2 ^ 31 \<longrightarrow>
        sint (addedCount oldIdMax idMax) = sint idMax - sint oldIdMax)
   \<and> (- (2 ^ 31) \<le> sint (m_connIdMax s) - sint (m_connIdMin s)
        \<and> sint (m_connIdMax s) - sint (m_connIdMin s) < 2 ^ 31 \<longrightarrow>
        sint (idSpan s) = sint (m_connIdMax s) - sint (m_connIdMin s))
   \<and> (0 < sint (m_connIdMax s) \<longrightarrow> doSqlCount s = idSpan s + 1)"
proof -
  have m: "uint (toInt (a - b)) = (sint a - sint b) mod 2 ^ 32" for a b
    by (simp only: uint_cint_mod sint_toInt_diff stb31_mod)
  have e: "sint (toInt (a - b)) = sint a - sint b"
    if "- (2 ^ 31) \<le> sint a - sint b" "sint a - sint b < 2 ^ 31" for a b
    using that by (simp only: sint_toInt_diff signed_take_bit_int_eq_self)
  have c: "0 < sint (m_connIdMax s) \<Longrightarrow> doSqlCount s = idSpan s + 1"
    by (simp add: doSqlCount_def word_sle_eq)
  show ?thesis
    using c by (simp add: removedCount_def addedCount_def idSpan_def m e)
qed

theorem counts_narrowed_witness:
  "sint (removedCount 5 8) = 3 \<and> sint (addedCount 12 14) = 2
   \<and> sint (idSpan (modelAt 5 12)) = 7 \<and> doSqlCount (modelAt 5 12) = idSpan (modelAt 5 12) + 1
   \<and> uint (addedCount 10 4294967306) = 0"
  using counts_narrowed [of 5 8 12 14 "modelAt 5 12"] counts_narrowed [of 0 0 10 4294967306 "modelAt 5 12"]
  by (simp add: modelAt_def)

subsection \<open>Row count and row identifiers\<close>

lemma sint_doSqlCount:
  "0 < sint (m_connIdMax s) \<Longrightarrow>
     sint (doSqlCount s) = signed_take_bit 31 (sint (m_connIdMax s) - sint (m_connIdMin s) + 1)"
  by (simp add: doSqlCount_def idSpan_def word_sle_eq sint_toInt_plus1)

lemma sint_doSqlCount_exact:
  assumes "0 < sint (m_connIdMax s)"
    and "- (2 ^ 31) \<le> sint (m_connIdMax s) - sint (m_connIdMin s) + 1"
    and "sint (m_connIdMax s) - sint (m_connIdMin s) + 1 < 2 ^ 31"
  shows "sint (doSqlCount s) = sint (m_connIdMax s) - sint (m_connIdMin s) + 1"
  using assms(2,3) by (simp only: sint_doSqlCount [OF assms(1)] signed_take_bit_int_eq_self)

lemma sint_connIdOfRow:
  "sint (connIdOfRow s i) = signed_take_bit 63 (sint (m_connIdMin s) + sint i)"
  by (simp add: connIdOfRow_def sint_word_add sint_toInt64)

lemma sint_connIdOfRow_exact:
  assumes "- (2 ^ 63) \<le> sint (m_connIdMin s) + sint i"
    and "sint (m_connIdMin s) + sint i < 2 ^ 63"
  shows "sint (connIdOfRow s i) = sint (m_connIdMin s) + sint i"
  using assms by (simp only: sint_connIdOfRow signed_take_bit_int_eq_self)

lemma fst_updateTableRow:
  "fst (updateTableRow f db s i) = (db (connIdOfRow s i) \<noteq> None)"
  by (simp add: updateTableRow_def split: option.split)

lemma in_range_no_overflow:
  assumes ne: "sint (m_connIdMin s) \<le> sint (m_connIdMax s)"
    and i0: "0 \<le> sint (i::cint)" and i1: "sint i < sint (doSqlCount s)"
  shows "sint (m_connIdMin s) + sint i < 2 ^ 63"
proof -
  let ?mn = "sint (m_connIdMin s)" and ?mx = "sint (m_connIdMax s)"
  have pos: "0 < ?mx"
  proof (rule ccontr)
    assume "\<not> 0 < ?mx"
    then have "doSqlCount s = 0" by (simp add: doSqlCount_def word_sle_eq)
    with i0 i1 show False by simp
  qed
  have mx: "?mx < 2 ^ 63" using sint_lt [of "m_connIdMax s"] by simp
  have ib: "sint i < 2 ^ 31" using sint_lt [of i] by simp
  show ?thesis
  proof (cases "?mx - ?mn + 1 < 2 ^ 31")
    case True
    have "sint (doSqlCount s) = ?mx - ?mn + 1"
      using pos ne True by (intro sint_doSqlCount_exact) simp_all
    with i1 mx show ?thesis by simp
  next
    case False
    with mx ib show ?thesis by simp
  qed
qed

lemma ident_iff:
  assumes "0 \<le> sint i"
  shows "(sint (connIdOfRow s i) = sint (m_connIdMin s) + sint i)
           = (sint (m_connIdMin s) + sint i < 2 ^ 63)"
proof -
  have "- (2 ^ 63) \<le> sint (m_connIdMin s) + sint i"
    using assms sint_ge [of "m_connIdMin s"] by simp
  then show ?thesis
    by (simp add: sint_connIdOfRow signed_take_bit_int_eq_self_iff)
qed

text \<open>
  C5, as the code has it. \<open>doSqlCount\<close> is 0 when the stored maximum is at most 0.
  Otherwise it is \<open>idMax - idMin + 1\<close> narrowed to a 32-bit signed int, which is
  \<open>idMax - idMin + 1\<close> itself whenever that number is representable (it lies in
  \<open>[-2^31, 2^31)\<close>). For every row index \<open>0 \<le> i < rowCount\<close> the identifier bound to
  the query is \<open>idMin + i\<close> computed in 64 bits: it is \<open>idMin + i\<close> exactly when that sum
  is below \<open>2^63\<close>, which it is for every window with \<open>idMin \<le> idMax\<close>, however wide.
  The row is read by looking that identifier up.
\<close>

theorem rowCount_and_identifier:
  "(sint (m_connIdMax s) \<le> 0 \<longrightarrow> doSqlCount s = 0)
   \<and> (0 < sint (m_connIdMax s) \<longrightarrow>
        sint (doSqlCount s)
          = signed_take_bit 31 (sint (m_connIdMax s) - sint (m_connIdMin s) + 1))
   \<and> (0 < sint (m_connIdMax s)
        \<and> - (2 ^ 31) \<le> sint (m_connIdMax s) - sint (m_connIdMin s) + 1
        \<and> sint (m_connIdMax s) - sint (m_connIdMin s) + 1 < 2 ^ 31 \<longrightarrow>
        sint (doSqlCount s) = sint (m_connIdMax s) - sint (m_connIdMin s) + 1)
   \<and> (0 \<le> sint i \<and> sint i < sint (doSqlCount s) \<longrightarrow>
        (sint (connIdOfRow s i) = sint (m_connIdMin s) + sint i)
          = (sint (m_connIdMin s) + sint i < 2 ^ 63))
   \<and> (sint (m_connIdMin s) \<le> sint (m_connIdMax s)
        \<and> 0 \<le> sint i \<and> sint i < sint (doSqlCount s) \<longrightarrow>
        sint (connIdOfRow s i) = sint (m_connIdMin s) + sint i)
   \<and> fst (updateTableRow f db s i) = (db (connIdOfRow s i) \<noteq> None)"
proof -
  have zero: "sint (m_connIdMax s) \<le> 0 \<Longrightarrow> doSqlCount s = 0"
    by (simp add: doSqlCount_def word_sle_eq)
  have gen: "sint (connIdOfRow s i) = sint (m_connIdMin s) + sint i"
    if "sint (m_connIdMin s) \<le> sint (m_connIdMax s)" "0 \<le> sint i"
      "sint i < sint (doSqlCount s)"
    using that in_range_no_overflow [of s i] ident_iff [of i s] by simp
  note wrap = sint_doSqlCount [of s] and exact = sint_doSqlCount_exact [of s]
    and look = fst_updateTableRow [of f db s i] and iff = ident_iff [of i s]
  show ?thesis
    using zero wrap exact iff gen look by blast
qed

theorem rowCount_and_identifier_witness:
  "sint (doSqlCount (modelAt 5 12)) = 8 \<and> sint (connIdOfRow (modelAt 5 12) 7) = 12
   \<and> doSqlCount (modelAt 0 0) = 0
   \<and> sint (connIdOfRow (modelAt 1 4294967308) 11) = 12"
proof -
  have m: "m_connIdMin (modelAt 5 12) = 5" "m_connIdMax (modelAt 5 12) = 12"
    "m_connIdMax (modelAt 0 0) = 0"
    "m_connIdMin (modelAt 1 4294967308) = 1" "m_connIdMax (modelAt 1 4294967308) = 4294967308"
    by (simp_all add: modelAt_def)
  have w: "sint (doSqlCount (modelAt 1 4294967308)) = 12"
    by (simp add: doSqlCount_def idSpan_def modelAt_def toInt_def word_sle_eq)
  have a: "sint (doSqlCount (modelAt 5 12)) = 8"
    using rowCount_and_identifier [of "modelAt 5 12" 7 ip6OfBytes storeEx] by (simp add: m)
  have b: "sint (connIdOfRow (modelAt 5 12) 7) = 12"
    using rowCount_and_identifier [of "modelAt 5 12" 7 ip6OfBytes storeEx] by (simp add: m a)
  have c: "doSqlCount (modelAt 0 0) = 0"
    using rowCount_and_identifier [of "modelAt 0 0" 0 ip6OfBytes storeEx] by (simp add: m)
  have d: "sint (connIdOfRow (modelAt 1 4294967308) 11) = 12"
    using rowCount_and_identifier [of "modelAt 1 4294967308" 11 ip6OfBytes storeEx]
    by (simp add: m w)
  show ?thesis using a b c d by simp
qed

text \<open>Without the condition on the width the row-count equation fails: for the window
  \<open>(1, 2^32)\<close> the row count is 0, not \<open>2^32\<close>. Without the condition on the sum the
  identifier equation fails: the stored pair \<open>(2^63 - 1, 2^63 - 2^32)\<close> has row count 2,
  and row 1 maps to \<open>-2^63\<close>.\<close>

theorem rowCount_wraps_counterexample:
  "doSqlCount (modelAt 1 4294967296) = 0
   \<and> sint (doSqlCount (modelAt 1 4294967296))
       \<noteq> (if sint (m_connIdMax (modelAt 1 4294967296)) \<le> 0 then 0
           else sint (m_connIdMax (modelAt 1 4294967296))
                - sint (m_connIdMin (modelAt 1 4294967296)) + 1)
   \<and> doSqlCount (modelAt 9223372036854775807 9223372032559808512) = 2
   \<and> sint (connIdOfRow (modelAt 9223372036854775807 9223372032559808512) 1)
       \<noteq> sint (m_connIdMin (modelAt 9223372036854775807 9223372032559808512)) + sint (1::cint)"
proof -
  have a: "doSqlCount (modelAt 1 4294967296) = 0"
    by (simp add: doSqlCount_def idSpan_def modelAt_def toInt_def word_sle_eq)
  have b: "sint (m_connIdMax (modelAt 1 4294967296)) = 4294967296"
    "sint (m_connIdMin (modelAt 1 4294967296)) = 1"
    by (simp_all add: modelAt_def)
  have c: "doSqlCount (modelAt 9223372036854775807 9223372032559808512) = 2"
    by (simp add: doSqlCount_def idSpan_def modelAt_def toInt_def word_sle_eq)
  have d: "sint (connIdOfRow (modelAt 9223372036854775807 9223372032559808512) 1)
      = - 9223372036854775808"
    by (simp add: connIdOfRow_def toInt64_def modelAt_def)
  have e: "sint (m_connIdMin (modelAt 9223372036854775807 9223372032559808512))
      = 9223372036854775807"
    by (simp add: modelAt_def)
  show ?thesis
    by (simp add: a b c d e)
qed

subsection \<open>A window that only grows\<close>

text \<open>
  C2, as the code has it. Let the stored window have a positive maximum and more than one
  identifier (\<open>idMin < idMax\<close>), and let the new window keep the minimum and raise the
  maximum by \<open>k > 0\<close>, its row count still below \<open>2^31\<close>. Then \<open>updateConnRows\<close> is one
  \<open>insertConnRows\<close>: new maximum \<open>idMax\<close>, insertion row \<open>oldIdMax - idMin + 1\<close>, count
  \<open>k\<close>; the minimum stays, and the row count rises by \<open>k\<close>.
\<close>

theorem grow_only:
  assumes pos: "0 < sint (m_connIdMax s)"
    and wide: "sint (m_connIdMin s) < sint (m_connIdMax s)"
    and new: "sint idMax = sint (m_connIdMax s) + k"
    and k: "0 < k"
    and fit: "sint idMax - sint (m_connIdMin s) + 1 < 2 ^ 31"
  shows "updateConnRows (m_connIdMin s) (m_connIdMax s) (m_connIdMin s) idMax s
           = insertConnRows idMax (endRow (m_connIdMax s) (m_connIdMin s))
               (addedCount (m_connIdMax s) idMax) s
         \<and> emitted s (updateConnRows (m_connIdMin s) (m_connIdMax s) (m_connIdMin s) idMax s)
           = [BeginInsertRows (endRow (m_connIdMax s) (m_connIdMin s))
                (endRow (m_connIdMax s) (m_connIdMin s) + addedCount (m_connIdMax s) idMax - 1),
              InvalidateRowCache, EndInsertRows]
         \<and> sint (endRow (m_connIdMax s) (m_connIdMin s))
           = sint (m_connIdMax s) - sint (m_connIdMin s) + 1
         \<and> sint (addedCount (m_connIdMax s) idMax) = k
         \<and> m_connIdMin (updateConnRows (m_connIdMin s) (m_connIdMax s) (m_connIdMin s) idMax s)
           = m_connIdMin s
         \<and> m_connIdMax (updateConnRows (m_connIdMin s) (m_connIdMax s) (m_connIdMin s) idMax s)
           = idMax
         \<and> sint (doSqlCount
                  (updateConnRows (m_connIdMin s) (m_connIdMax s) (m_connIdMin s) idMax s))
           = sint (doSqlCount s) + k"
proof -
  let ?mn = "m_connIdMin s" and ?mx = "m_connIdMax s"
  let ?s' = "updateConnRows ?mn ?mx ?mn idMax s"
  have out: "\<not> (isIdMinOut ?mn ?mx ?mn \<or> isIdMaxOut ?mx idMax)"
    using pos wide new k by (auto simp add: out_iff)
  have rc: "\<not> 0 <s removedCount ?mn ?mn"
    by (simp add: removedCount_def toInt_def)
  have ac: "sint (addedCount ?mx idMax) = k"
  proof -
    have "sint (addedCount ?mx idMax) = signed_take_bit 31 k"
      using new by (simp add: addedCount_def sint_toInt_diff)
    moreover have "- (2 ^ 31) \<le> k" "k < 2 ^ 31"
      using k fit new wide by linarith+
    ultimately show ?thesis by (simp only: signed_take_bit_int_eq_self)
  qed
  then have ac': "0 <s addedCount ?mx idMax"
    using k by (simp add: word_sless_alt)
  have er: "sint (endRow ?mx ?mn) = sint ?mx - sint ?mn + 1"
  proof -
    have "sint (endRow ?mx ?mn) = signed_take_bit 31 (sint ?mx - sint ?mn + 1)"
      by (simp add: endRow_def sint_toInt_diff1)
    moreover have "- (2 ^ 31) \<le> sint ?mx - sint ?mn + 1" "sint ?mx - sint ?mn + 1 < 2 ^ 31"
      using k fit new wide by linarith+
    ultimately show ?thesis by (simp only: signed_take_bit_int_eq_self)
  qed
  have step: "?s' = insertConnRows idMax (endRow ?mx ?mn) (addedCount ?mx idMax) s"
    using out rc ac' by (simp add: updateConnRows_def Let_def)
  have ev: "emitted s ?s'
      = [BeginInsertRows (endRow ?mx ?mn) (endRow ?mx ?mn + addedCount ?mx idMax - 1),
         InvalidateRowCache, EndInsertRows]"
    using out rc ac' by (simp add: emitted_updateConnRows)
  have mn': "m_connIdMin ?s' = ?mn" and mx': "m_connIdMax ?s' = idMax"
    by (simp_all add: step fields_insertConnRows)
  have old: "sint (doSqlCount s) = sint ?mx - sint ?mn + 1"
    using pos wide fit new k by (intro sint_doSqlCount_exact) linarith+
  have p31: "(0::int) \<le> 2 ^ 31" by simp
  have n1: "0 < sint idMax"
    using pos new k by linarith
  have n2: "- (2 ^ 31) \<le> sint idMax - sint ?mn + 1"
    using wide new k p31 by linarith
  have "sint (doSqlCount ?s') = sint (m_connIdMax ?s') - sint (m_connIdMin ?s') + 1"
    using n1 n2 fit by (intro sint_doSqlCount_exact) (simp_all only: mn' mx')
  then have cnt: "sint (doSqlCount ?s') = sint (doSqlCount s) + k"
    using old new by (simp add: mn' mx')
  show ?thesis
    using step ev er ac mn' mx' cnt by blast
qed

theorem grow_only_witness:
  "emitted (modelAt 5 10) (updateConnRows 5 10 5 12 (modelAt 5 10))
     = [BeginInsertRows 6 7, InvalidateRowCache, EndInsertRows]
   \<and> sint (doSqlCount (modelAt 5 10)) = 6
   \<and> sint (doSqlCount (updateConnRows 5 10 5 12 (modelAt 5 10))) = 8
   \<and> m_connIdMax (updateConnRows 5 10 5 12 (modelAt 5 10)) = 12"
proof -
  have m: "m_connIdMin (modelAt 5 10) = 5" "m_connIdMax (modelAt 5 10) = 10"
    by (simp_all add: modelAt_def)
  have c: "endRow 10 5 = 6" "addedCount 10 12 = 2"
    by (simp_all add: endRow_def addedCount_def toInt_def)
  have d: "sint (doSqlCount (modelAt 5 10)) = 6"
    by (simp add: doSqlCount_def idSpan_def modelAt_def toInt_def word_sle_eq)
  have h: "0 < sint (m_connIdMax (modelAt 5 10))"
    "sint (m_connIdMin (modelAt 5 10)) < sint (m_connIdMax (modelAt 5 10))"
    "sint (12::qint64) = sint (m_connIdMax (modelAt 5 10)) + 2" "(0::int) < 2"
    "sint (12::qint64) - sint (m_connIdMin (modelAt 5 10)) + 1 < 2 ^ 31"
    by (simp_all add: m)
  have "emitted (modelAt 5 10) (updateConnRows 5 10 5 12 (modelAt 5 10))
          = [BeginInsertRows 6 (6 + 2 - 1), InvalidateRowCache, EndInsertRows]
        \<and> sint (doSqlCount (updateConnRows 5 10 5 12 (modelAt 5 10))) = 6 + 2
        \<and> m_connIdMax (updateConnRows 5 10 5 12 (modelAt 5 10)) = 12"
    using grow_only [OF h, unfolded m c d] by blast
  then show ?thesis
    using d by simp
qed

text \<open>Both added conditions are needed. A one-row window \<open>(5,5)\<close> growing to
  \<open>(5,6)\<close> has \<open>idMin \<ge> oldIdMax\<close> and is reset. A window \<open>(1,10)\<close> growing by \<open>2^32\<close>
  has \<open>addedCount = 0\<close>: nothing is inserted and the stored window stays \<open>(1,10)\<close>.\<close>

theorem grow_only_counterexample:
  "0 < sint (5::qint64) \<and> sint (6::qint64) = sint (5::qint64) + 1
   \<and> emitted (modelAt 5 5) (updateConnRows 5 5 5 6 (modelAt 5 5))
     = [InvalidateRowCache, ModelReset]
   \<and> 0 < sint (10::qint64) \<and> sint (4294967306::qint64) = sint (10::qint64) + 4294967296
   \<and> updateConnRows 1 10 1 4294967306 (modelAt 1 10) = modelAt 1 10"
proof -
  have a: "isIdMinOut 5 5 5"
    by (simp add: isIdMinOut_def word_sle_eq)
  have b: "\<not> (isIdMinOut 1 10 1 \<or> isIdMaxOut 10 4294967306)"
    by (simp add: isIdMinOut_def isIdMaxOut_def word_sle_eq word_sless_alt)
  have c: "removedCount 1 1 = 0" "addedCount 10 4294967306 = 0"
    by (simp_all add: removedCount_def addedCount_def toInt_def)
  have r: "emitted (modelAt 5 5) (updateConnRows 5 5 5 6 (modelAt 5 5))
      = [InvalidateRowCache, ModelReset]"
    using a by (simp add: emitted_updateConnRows)
  have i: "updateConnRows 1 10 1 4294967306 (modelAt 1 10) = modelAt 1 10"
    using b by (simp add: updateConnRows_def c)
  show ?thesis
    using r i by simp
qed

subsection \<open>A window that only shrinks from the front\<close>

text \<open>
  C3, as the code has it. Let the stored maximum be non-zero and let the new window keep
  the maximum and raise the minimum by \<open>k\<close>, \<open>0 < k < oldIdMax - oldIdMin\<close> and
  \<open>k < 2^31\<close>. Then \<open>updateConnRows\<close> is one \<open>removeConnRows\<close> with new minimum \<open>idMin\<close>
  and count \<open>k\<close>, and afterwards row 0 maps to the identifier \<open>idMin\<close>.
\<close>

theorem trim_only:
  assumes nz: "m_connIdMax s \<noteq> 0"
    and new: "sint idMin = sint (m_connIdMin s) + k"
    and k: "0 < k"
    and inside: "k < sint (m_connIdMax s) - sint (m_connIdMin s)"
    and fit: "k < 2 ^ 31"
  shows "updateConnRows (m_connIdMin s) (m_connIdMax s) idMin (m_connIdMax s) s
           = removeConnRows idMin (removedCount (m_connIdMin s) idMin) s
         \<and> emitted s (updateConnRows (m_connIdMin s) (m_connIdMax s) idMin (m_connIdMax s) s)
           = [BeginRemoveRows 0 (removedCount (m_connIdMin s) idMin - 1),
              InvalidateRowCache, EndRemoveRows]
         \<and> sint (removedCount (m_connIdMin s) idMin) = k
         \<and> m_connIdMin (updateConnRows (m_connIdMin s) (m_connIdMax s) idMin (m_connIdMax s) s)
           = idMin
         \<and> m_connIdMax (updateConnRows (m_connIdMin s) (m_connIdMax s) idMin (m_connIdMax s) s)
           = m_connIdMax s
         \<and> connIdOfRow
             (updateConnRows (m_connIdMin s) (m_connIdMax s) idMin (m_connIdMax s) s) 0
           = idMin"
proof -
  let ?mn = "m_connIdMin s" and ?mx = "m_connIdMax s"
  let ?s' = "updateConnRows ?mn ?mx idMin ?mx s"
  have out: "\<not> (isIdMinOut ?mn ?mx idMin \<or> isIdMaxOut ?mx ?mx)"
    using nz new k inside by (auto simp add: out_iff)
  have rc: "sint (removedCount ?mn idMin) = k"
  proof -
    have "sint (removedCount ?mn idMin) = signed_take_bit 31 k"
      using new by (simp add: removedCount_def sint_toInt_diff)
    moreover have "- (2 ^ 31) \<le> k"
      using k by simp
    ultimately show ?thesis using fit by (simp only: signed_take_bit_int_eq_self)
  qed
  then have rc': "0 <s removedCount ?mn idMin"
    using k by (simp add: word_sless_alt)
  have ac: "\<not> 0 <s addedCount ?mx ?mx"
    by (simp add: addedCount_def toInt_def)
  have step: "?s' = removeConnRows idMin (removedCount ?mn idMin) s"
    using out rc' ac by (simp add: updateConnRows_def Let_def)
  have ev: "emitted s ?s'
      = [BeginRemoveRows 0 (removedCount ?mn idMin - 1), InvalidateRowCache, EndRemoveRows]"
    using out rc' ac by (simp add: emitted_updateConnRows)
  have mn': "m_connIdMin ?s' = idMin" and mx': "m_connIdMax ?s' = ?mx"
    by (simp_all add: step fields_removeConnRows)
  have row0: "connIdOfRow ?s' 0 = idMin"
    by (simp add: connIdOfRow_def toInt64_def mn')
  show ?thesis
    using step ev rc mn' mx' row0 by blast
qed

theorem trim_only_witness:
  "emitted (modelAt 5 12) (updateConnRows 5 12 8 12 (modelAt 5 12))
     = [BeginRemoveRows 0 2, InvalidateRowCache, EndRemoveRows]
   \<and> connIdOfRow (updateConnRows 5 12 8 12 (modelAt 5 12)) 0 = 8
   \<and> sint (doSqlCount (updateConnRows 5 12 8 12 (modelAt 5 12))) = 5"
proof -
  have m: "m_connIdMin (modelAt 5 12) = 5" "m_connIdMax (modelAt 5 12) = 12"
    by (simp_all add: modelAt_def)
  have c: "removedCount 5 8 = 3"
    by (simp add: removedCount_def toInt_def)
  have h: "m_connIdMax (modelAt 5 12) \<noteq> 0"
    "sint (8::qint64) = sint (m_connIdMin (modelAt 5 12)) + 3" "(0::int) < 3"
    "3 < sint (m_connIdMax (modelAt 5 12)) - sint (m_connIdMin (modelAt 5 12))"
    "(3::int) < 2 ^ 31"
    by (simp_all add: m)
  have t: "emitted (modelAt 5 12) (updateConnRows 5 12 8 12 (modelAt 5 12))
         = [BeginRemoveRows 0 (3 - 1), InvalidateRowCache, EndRemoveRows]
      \<and> connIdOfRow (updateConnRows 5 12 8 12 (modelAt 5 12)) 0 = 8"
    using trim_only [OF h, unfolded m c] by blast
  have "updateConnRows 5 12 8 12 (modelAt 5 12) = removeConnRows 8 3 (modelAt 5 12)"
    using trim_only [OF h, unfolded m c] by blast
  then have "sint (doSqlCount (updateConnRows 5 12 8 12 (modelAt 5 12))) = 5"
    by (simp add: doSqlCount_def idSpan_def fields_removeConnRows m toInt_def word_sle_eq)
  then show ?thesis
    using t by simp
qed

text \<open>Both added conditions are needed. A stored window \<open>(-5,0)\<close> has maximum 0
  and is reset when \<open>(-3,0)\<close> is observed. A stored window \<open>(0, 2^32+5)\<close> trimmed by
  \<open>2^32\<close> has \<open>removedCount = 0\<close>: nothing is removed, the stored minimum stays 0 and
  row 0 still maps to identifier 0.\<close>

theorem trim_only_counterexample:
  "sint (- 3::qint64) = sint (- 5::qint64) + 2
   \<and> (2::int) < sint (0::qint64) - sint (- 5::qint64)
   \<and> emitted (modelAt (- 5) 0) (updateConnRows (- 5) 0 (- 3) 0 (modelAt (- 5) 0))
     = [InvalidateRowCache, ModelReset]
   \<and> sint (4294967296::qint64) = sint (0::qint64) + 4294967296
   \<and> (4294967296::int) < sint (4294967301::qint64) - sint (0::qint64)
   \<and> updateConnRows 0 4294967301 4294967296 4294967301 (modelAt 0 4294967301)
       = modelAt 0 4294967301
   \<and> connIdOfRow
        (updateConnRows 0 4294967301 4294967296 4294967301 (modelAt 0 4294967301)) 0 = 0"
proof -
  have a: "isIdMaxOut 0 0"
    by (simp add: isIdMaxOut_def)
  have b: "\<not> (isIdMinOut 0 4294967301 4294967296 \<or> isIdMaxOut 4294967301 4294967301)"
    by (simp add: isIdMinOut_def isIdMaxOut_def word_sle_eq word_sless_alt)
  have c: "removedCount 0 4294967296 = 0" "addedCount 4294967301 4294967301 = 0"
    by (simp_all add: removedCount_def addedCount_def toInt_def)
  have d: "updateConnRows 0 4294967301 4294967296 4294967301 (modelAt 0 4294967301)
       = modelAt 0 4294967301"
    using b by (simp add: updateConnRows_def c)
  have r: "emitted (modelAt (- 5) 0) (updateConnRows (- 5) 0 (- 3) 0 (modelAt (- 5) 0))
      = [InvalidateRowCache, ModelReset]"
    using a by (simp add: emitted_updateConnRows)
  have e: "connIdOfRow (modelAt 0 4294967301) 0 = 0"
    by (simp add: connIdOfRow_def toInt64_def modelAt_def)
  show ?thesis
    using r e by (simp add: d)
qed

subsection \<open>Reading a row\<close>

lemma identifierForRow_out:
  "sint row < 0 \<or> sint (doSqlCount s) \<le> sint row \<Longrightarrow> identifierForRow s row = Inl OutOfRange"
  by (auto simp add: identifierForRow_def word_sle_eq word_sless_alt)

lemma identifierForRow_in:
  "0 \<le> sint row \<Longrightarrow> sint row < sint (doSqlCount s) \<Longrightarrow>
     identifierForRow s row = Inr (connIdOfRow s row)"
  by (simp add: identifierForRow_def word_sle_eq word_sless_alt)

lemma connRowAt_in:
  assumes "identifierForRow s row = Inr ident"
  shows "\<exists>r c' s'. connRowAt f db c s row = Inr (r, c', s')"
  using assms
  by (simp add: connRowAt_def updateRowCache_def split: prod.split)

text \<open>
  C6. Reading a row whose index is outside \<open>[0, rowCount())\<close> fails with \<open>OutOfRange\<close>,
  whatever the cache holds: \<open>identifierForRow\<close> is undefined there, and so are
  \<open>updateRowCache\<close> and \<open>connRowAt\<close>. For an index inside the interval the identifier is
  \<open>connIdMin() + row\<close> and the read returns a row.
\<close>

theorem read_out_of_range:
  "(sint row < 0 \<or> sint (doSqlCount s) \<le> sint row \<longrightarrow>
      identifierForRow s row = Inl OutOfRange
      \<and> updateRowCache f db c s row = Inl OutOfRange
      \<and> connRowAt f db c s row = Inl OutOfRange)
   \<and> (0 \<le> sint row \<and> sint row < sint (doSqlCount s) \<longrightarrow>
      identifierForRow s row = Inr (connIdOfRow s row)
      \<and> (\<exists>r c' s'. connRowAt f db c s row = Inr (r, c', s')))"
proof (intro conjI impI)
  assume out: "sint row < 0 \<or> sint (doSqlCount s) \<le> sint row"
  then show e: "identifierForRow s row = Inl OutOfRange"
    by (rule identifierForRow_out)
  then show u: "updateRowCache f db c s row = Inl OutOfRange"
    by (simp add: updateRowCache_def)
  then show "connRowAt f db c s row = Inl OutOfRange"
    by (simp add: connRowAt_def)
next
  assume inr: "0 \<le> sint row \<and> sint row < sint (doSqlCount s)"
  then show i: "identifierForRow s row = Inr (connIdOfRow s row)"
    by (simp add: identifierForRow_in)
  then show "\<exists>r c' s'. connRowAt f db c s row = Inr (r, c', s')"
    by (rule connRowAt_in)
qed

theorem read_out_of_range_witness:
  "connRowAt ip6OfBytes storeEx Empty (modelAt 5 12) 8 = Inl OutOfRange
   \<and> connRowAt ip6OfBytes storeEx Empty (modelAt 5 12) (- 1) = Inl OutOfRange
   \<and> identifierForRow (modelAt 5 12) 7 = Inr 12"
proof -
  have d: "sint (doSqlCount (modelAt 5 12)) = 8"
    by (simp add: doSqlCount_def idSpan_def modelAt_def toInt_def word_sle_eq)
  have c: "connIdOfRow (modelAt 5 12) 7 = 12"
    by (simp add: connIdOfRow_def toInt64_def modelAt_def)
  note t8 = read_out_of_range [of 8 "modelAt 5 12" ip6OfBytes storeEx Empty]
  note tm = read_out_of_range [of "- 1" "modelAt 5 12" ip6OfBytes storeEx Empty]
  note t7 = read_out_of_range [of 7 "modelAt 5 12" ip6OfBytes storeEx Empty]
  have a: "connRowAt ip6OfBytes storeEx Empty (modelAt 5 12) 8 = Inl OutOfRange"
    using t8 by (simp add: d)
  have b: "connRowAt ip6OfBytes storeEx Empty (modelAt 5 12) (- 1) = Inl OutOfRange"
    using tm by (simp add: d)
  have e: "identifierForRow (modelAt 5 12) 7 = Inr 12"
    using t7 by (simp add: d c)
  show ?thesis using a b e by simp
qed

subsection \<open>Decoding the addresses\<close>

text \<open>
  C8. The decoded row's \<open>isIPv6\<close> flag is read from the record: it is whether column 11
  (\<open>local_ip\<close>) is NULL. When it is set, both addresses are the 128-bit values of the blobs
  in columns 13 and 14; when it is clear, both are the 32-bit integers of columns 11 and
  12. Local and remote address are always of the same family, the one the flag names.
  \<open>updateTableRow\<close> stores exactly this decoding of the record it finds.
\<close>

theorem decode_address_family:
  "isIPv6 (decodeRow f stmt r) = columnIsNull stmt 11
   \<and> (columnIsNull stmt 11 \<longrightarrow>
        localIp (decodeRow f stmt r) = V6 (f (columnBlob stmt 13))
        \<and> remoteIp (decodeRow f stmt r) = V6 (f (columnBlob stmt 14)))
   \<and> (\<not> columnIsNull stmt 11 \<longrightarrow>
        localIp (decodeRow f stmt r) = V4 (columnInt stmt 11)
        \<and> remoteIp (decodeRow f stmt r) = V4 (columnInt stmt 12))
   \<and> is_v6 (localIp (decodeRow f stmt r)) = isIPv6 (decodeRow f stmt r)
   \<and> is_v6 (remoteIp (decodeRow f stmt r)) = isIPv6 (decodeRow f stmt r)
   \<and> (db (connIdOfRow s row) = Some stmt \<longrightarrow>
        updateTableRow f db s row
          = (True, s\<lparr>m_connRow := decodeRow f stmt (m_connRow s)\<rparr>))"
  by (simp add: decodeRow_def Let_def updateTableRow_def)

theorem decode_address_family_witness:
  "localIp (m_connRow (snd (updateTableRow ip6OfBytes storeEx (modelAt 10 14) 3))) = V4 167772161
   \<and> remoteIp (m_connRow (snd (updateTableRow ip6OfBytes storeEx (modelAt 10 14) 3))) = V4 134744072
   \<and> localIp (m_connRow (snd (updateTableRow ip6OfBytes storeEx (modelAt 10 14) 4))) = V6 1
   \<and> remoteIp (m_connRow (snd (updateTableRow ip6OfBytes storeEx (modelAt 10 14) 4))) = V6 256"
proof -
  have c: "storeEx (connIdOfRow (modelAt 10 14) 3) = Some stmt4"
    "storeEx (connIdOfRow (modelAt 10 14) 4) = Some stmt6"
    by (simp_all add: connIdOfRow_def toInt64_def modelAt_def storeEx_def)
  have n: "\<not> columnIsNull stmt4 11" "columnIsNull stmt6 11"
    by (simp_all add: stmt4_def stmt6_def)
  have v: "columnInt stmt4 11 = 167772161" "columnInt stmt4 12 = 134744072"
    "ip6OfBytes (columnBlob stmt6 13) = 1" "ip6OfBytes (columnBlob stmt6 14) = 256"
    by (simp_all add: stmt4_def stmt6_def ip6OfBytes_def)
  note t4 = decode_address_family
    [of ip6OfBytes stmt4 "m_connRow (modelAt 10 14)" storeEx "modelAt 10 14" 3]
  note t6 = decode_address_family
    [of ip6OfBytes stmt6 "m_connRow (modelAt 10 14)" storeEx "modelAt 10 14" 4]
  have u4: "updateTableRow ip6OfBytes storeEx (modelAt 10 14) 3
      = (True, (modelAt 10 14)\<lparr>m_connRow
           := decodeRow ip6OfBytes stmt4 (m_connRow (modelAt 10 14))\<rparr>)"
    using t4 c(1) by simp
  have u6: "updateTableRow ip6OfBytes storeEx (modelAt 10 14) 4
      = (True, (modelAt 10 14)\<lparr>m_connRow
           := decodeRow ip6OfBytes stmt6 (m_connRow (modelAt 10 14))\<rparr>)"
    using t6 c(2) by simp
  have a: "localIp (decodeRow ip6OfBytes stmt4 (m_connRow (modelAt 10 14))) = V4 167772161
      \<and> remoteIp (decodeRow ip6OfBytes stmt4 (m_connRow (modelAt 10 14))) = V4 134744072"
    using t4 n(1) by (simp add: v)
  have b: "localIp (decodeRow ip6OfBytes stmt6 (m_connRow (modelAt 10 14))) = V6 1
      \<and> remoteIp (decodeRow ip6OfBytes stmt6 (m_connRow (modelAt 10 14))) = V6 256"
    using t6 n(2) by (simp add: v)
  show ?thesis
    using a b by (simp add: u4 u6)
qed

end
